theory Spec2Isabelle
  imports Complex_Main
begin

section \<open>JavaScript numbers\<close>

text \<open>
  A JavaScript \<^verbatim>\<open>number\<close> is an IEEE double. The model keeps the three special values
  the handlers can produce (\<^verbatim>\<open>Infinity\<close>, \<^verbatim>\<open>-Infinity\<close>, \<^verbatim>\<open>NaN\<close>) and represents every
  finite value by the exact real number: the rounding and the overflow of double arithmetic
  are not modelled, and the zero of the model is the positive zero.
\<close>

datatype number = Num real | Infinity | NegInfinity | NaN

fun signed_inf :: "real \<Rightarrow> number" where
  "signed_inf s = (if s = 0 then NaN else if 0 < s then Infinity else NegInfinity)"

fun num_sign :: "number \<Rightarrow> real" where
  "num_sign (Num a) = sgn a"
| "num_sign Infinity = 1"
| "num_sign NegInfinity = - 1"
| "num_sign NaN = 0"

text \<open>\<^verbatim>\<open>x * y\<close>: \<^verbatim>\<open>NaN\<close> is absorbing, and an infinity times zero is \<^verbatim>\<open>NaN\<close>.\<close>

fun js_mul :: "number \<Rightarrow> number \<Rightarrow> number" where
  "js_mul NaN y = NaN"
| "js_mul x NaN = NaN"
| "js_mul (Num a) (Num b) = Num (a * b)"
| "js_mul x y = signed_inf (num_sign x * num_sign y)"

text \<open>
  \<^verbatim>\<open>x / y\<close>: a finite non-zero value over zero is an infinity of the sign of the
  numerator, zero over zero and infinity over infinity are \<^verbatim>\<open>NaN\<close>.
\<close>

fun js_div :: "number \<Rightarrow> number \<Rightarrow> number" where
  "js_div NaN y = NaN"
| "js_div x NaN = NaN"
| "js_div (Num a) (Num b) = (if b = 0 then signed_inf (sgn a) else Num (a / b))"
| "js_div (Num a) y = Num 0"
| "js_div x (Num b) = (if b = 0 then x else signed_inf (num_sign x * sgn b))"
| "js_div x y = NaN"

definition isFinite :: "number \<Rightarrow> bool" where
  "isFinite x = (case x of Num a \<Rightarrow> True | _ \<Rightarrow> False)"

section \<open>Number.prototype.toFixed\<close>

definition digit_char :: "nat \<Rightarrow> char" where
  "digit_char d = ''0123456789'' ! (d mod 10)"

fun digits_of :: "nat \<Rightarrow> string" where
  "digits_of n = (if n < 10 then [digit_char n] else digits_of (n div 10) @ [digit_char (n mod 10)])"

declare digits_of.simps [simp del]

text \<open>The decimal digits, and the number that a string of decimal digits denotes.\<close>

definition is_digit :: "char \<Rightarrow> bool" where
  "is_digit c = (c \<in> set ''0123456789'')"

definition digits_value :: "string \<Rightarrow> nat" where
  "digits_value s = foldl (\<lambda>a c. 10 * a + (of_char c - 48)) 0 s"

text \<open>
  The fixed-point branch of \<^verbatim>\<open>toFixed(f)\<close> for \<^verbatim>\<open>0 \<le> x < 10^21\<close>: \<^verbatim>\<open>n\<close> is the integer
  nearest to \<^verbatim>\<open>x * 10^f\<close> (the larger one on a tie), its digits are padded with zeros to
  \<^verbatim>\<open>f + 1\<close> characters and the point goes before the last \<^verbatim>\<open>f\<close> of them.
\<close>

definition fixed_notation :: "nat \<Rightarrow> real \<Rightarrow> string" where
  "fixed_notation f x =
     (let n = nat \<lfloor>x * 10 ^ f + 1 / 2\<rfloor>;
          m = digits_of n
      in if f = 0 then m
         else (let m' = replicate (f + 1 - length m) (CHR ''0'') @ m;
                   k = length m'
               in take (k - f) m' @ ''.'' @ drop (k - f) m'))"

text \<open>
  \<^verbatim>\<open>x.toFixed(f)\<close>. A value that is not finite is rendered by its name. A finite value of
  magnitude \<^verbatim>\<open>10^21\<close> or more is rendered by \<^verbatim>\<open>Number::toString\<close>, whose shortest
  round-trip digits depend on the double itself: that rendering is the parameter
  \<open>toStr\<close> of the model.
\<close>

definition toFixed :: "(real \<Rightarrow> string) \<Rightarrow> nat \<Rightarrow> number \<Rightarrow> string" where
  "toFixed toStr f v =
     (case v of
        NaN \<Rightarrow> ''NaN''
      | Infinity \<Rightarrow> ''Infinity''
      | NegInfinity \<Rightarrow> ''-Infinity''
      | Num x \<Rightarrow>
          (let s = (if x < 0 then ''-'' else '''');
               y = \<bar>x\<bar>;
               m = (if 10 ^ 21 \<le> y then toStr y else fixed_notation f y)
           in s @ m))"

text \<open>
  In the examples no value reaches \<^verbatim>\<open>10^21\<close>; their renderer of such values is never
  called and returns the empty string.
\<close>

definition exponent_free :: "real \<Rightarrow> string" where
  "exponent_free x = []"

section \<open>Errors\<close>

text \<open>
  What a handler can throw: the errors of the libraries, and the errors the handlers
  make themselves, with a fixed message or with a message that quotes the error caught.
\<close>

datatype error =
    ZodError
  | TypeError
  | SyntaxError
  | CommandFailed
  | DockerError
  | ProviderError
  | Error string
  | Wrapped string error

section \<open>Docker stats: formatBytes\<close>

definition units :: "string list" where
  "units = [''B'', ''KB'', ''MB'', ''GB'', ''TB'']"

text \<open>
  The \<^verbatim>\<open>while\<close> loop of \<^verbatim>\<open>formatBytes\<close> on its two variables. A division by 1024 of a
  double that is at least 1024 is exact, so the exact model loses nothing here.
\<close>

function formatBytes_loop :: "real \<Rightarrow> nat \<Rightarrow> real \<times> nat" where
  "formatBytes_loop sz unitIndex =
     (if 1024 \<le> sz \<and> unitIndex < length units - 1
      then formatBytes_loop (sz / 1024) (unitIndex + 1)
      else (sz, unitIndex))"
  by pat_completeness auto
termination
  by (relation "measure (\<lambda>(sz, i). length units - 1 - i)") auto

declare formatBytes_loop.simps [simp del]

definition formatBytes :: "(real \<Rightarrow> string) \<Rightarrow> real \<Rightarrow> string" where
  "formatBytes toStr bytes =
     (case formatBytes_loop bytes 0 of
        (sz, unitIndex) \<Rightarrow> toFixed toStr 2 (Num sz) @ units ! unitIndex)"

text \<open>
  What the specification says of the chosen unit, in its own words: the scaled value of
  a unit, the largest unit whose scaled value is below 1024, and the reading that the
  loop implements, the smallest such unit (the top unit when there is none).
\<close>

definition scaled :: "real \<Rightarrow> nat \<Rightarrow> real" where
  "scaled bytes i = bytes / 1024 ^ i"

definition largest_unit_below :: "real \<Rightarrow> nat \<Rightarrow> bool" where
  "largest_unit_below bytes i =
     (i < length units \<and> scaled bytes i < 1024 \<and>
      list_all (\<lambda>j. scaled bytes j < 1024 \<longrightarrow> j \<le> i) [0..<length units])"

definition smallest_unit_below :: "real \<Rightarrow> nat \<Rightarrow> bool" where
  "smallest_unit_below bytes i =
     (i < length units \<and> (scaled bytes i < 1024 \<or> i = length units - 1) \<and>
      list_all (\<lambda>j. 1024 \<le> scaled bytes j) [0..<i])"

section \<open>Docker stats: the sample and the derived figures\<close>

text \<open>
  One sample of \<^verbatim>\<open>container.stats({ stream: false })\<close>, with the fields the helpers
  read. The counters arrive as JSON numbers, so they are finite. \<^verbatim>\<open>precpu_stats\<close> has
  the shape of \<^verbatim>\<open>cpu_stats\<close> in the Docker API; the code reads its two counters only.
  \<^verbatim>\<open>networks\<close> is an object keyed by interface name (an association list, in the key
  order that \<^verbatim>\<open>Object.values\<close> follows); it and the block I/O fields may be absent.
  The field \<^verbatim>\<open>value\<close> of a block I/O entry is \<open>val\<close> here.
\<close>

record cpu_usage_t =
  total_usage :: real

record cpu_stats_t =
  cpu_usage :: cpu_usage_t
  system_cpu_usage :: real
  online_cpus :: real

record memory_stats_t =
  usage :: real
  limit :: real

record network_t =
  rx_bytes :: real
  tx_bytes :: real

record BlockIOStats =
  op :: string
  val :: real

record blkio_stats_t =
  io_service_bytes_recursive :: "BlockIOStats list option"

record stats =
  cpu_stats :: cpu_stats_t
  precpu_stats :: cpu_stats_t
  memory_stats :: memory_stats_t
  networks :: "(string \<times> network_t) list option"
  blkio_stats :: "blkio_stats_t option"

definition cpuDelta :: "stats \<Rightarrow> real" where
  "cpuDelta st = total_usage (cpu_usage (cpu_stats st)) - total_usage (cpu_usage (precpu_stats st))"

definition systemDelta :: "stats \<Rightarrow> real" where
  "systemDelta st = system_cpu_usage (cpu_stats st) - system_cpu_usage (precpu_stats st)"

definition calculateCPUPercentage :: "stats \<Rightarrow> number" where
  "calculateCPUPercentage st =
     (let cpuCount = online_cpus (cpu_stats st)
      in js_mul (js_mul (js_div (Num (cpuDelta st)) (Num (systemDelta st))) (Num cpuCount)) (Num 100))"

text \<open>
  A sample for the examples: 200 units of CPU time out of 1000 on 4 CPUs, two network
  interfaces and two block devices.
\<close>

definition example_stats :: stats where
  "example_stats =
     \<lparr>cpu_stats = \<lparr>cpu_usage = \<lparr>total_usage = 700\<rparr>, system_cpu_usage = 5000, online_cpus = 4\<rparr>,
      precpu_stats = \<lparr>cpu_usage = \<lparr>total_usage = 500\<rparr>, system_cpu_usage = 4000, online_cpus = 4\<rparr>,
      memory_stats = \<lparr>usage = 1536, limit = 4096\<rparr>,
      networks = Some [(''eth0'', \<lparr>rx_bytes = 100, tx_bytes = 1\<rparr>), (''eth1'', \<lparr>rx_bytes = 2000, tx_bytes = 2\<rparr>)],
      blkio_stats = Some \<lparr>io_service_bytes_recursive =
        Some [\<lparr>op = ''Read'', val = 100\<rparr>, \<lparr>op = ''Write'', val = 7\<rparr>,
              \<lparr>op = ''Read'', val = 200\<rparr>, \<lparr>op = ''Write'', val = 9\<rparr>]\<rparr>\<rparr>"

definition formatMemoryUsage :: "(real \<Rightarrow> string) \<Rightarrow> stats \<Rightarrow> string" where
  "formatMemoryUsage toStr st =
     (let used = usage (memory_stats st);
          lim = limit (memory_stats st);
          percent = toFixed toStr 2 (js_mul (js_div (Num used) (Num lim)) (Num 100))
      in formatBytes toStr used @ '' / '' @ formatBytes toStr lim @ '' ('' @ percent @ ''%)'')"

text \<open>The arrows \<^verbatim>\<open>U+2193\<close> and \<^verbatim>\<open>U+2191\<close> of the two I/O strings, as UTF-8 bytes.\<close>

definition down_arrow :: string where
  "down_arrow = [CHR 0xE2, CHR 0x86, CHR 0x93]"

definition up_arrow :: string where
  "up_arrow = [CHR 0xE2, CHR 0x86, CHR 0x91]"

text \<open>\<^verbatim>\<open>Object.values(stats.networks || {})\<close>.\<close>

definition network_values :: "stats \<Rightarrow> network_t list" where
  "network_values st = (case networks st of None \<Rightarrow> [] | Some nets \<Rightarrow> map snd nets)"

definition network_rx :: "stats \<Rightarrow> real" where
  "network_rx st = foldl (\<lambda>acc net. acc + rx_bytes net) 0 (network_values st)"

definition network_tx :: "stats \<Rightarrow> real" where
  "network_tx st = foldl (\<lambda>acc net. acc + tx_bytes net) 0 (network_values st)"

definition formatNetworkIO :: "(real \<Rightarrow> string) \<Rightarrow> stats \<Rightarrow> string" where
  "formatNetworkIO toStr st =
     down_arrow @ formatBytes toStr (network_rx st) @ '' / '' @ up_arrow @ formatBytes toStr (network_tx st)"

text \<open>
  \<^verbatim>\<open>stats.blkio_stats?.io_service_bytes_recursive?.find(s => s.op === oper)?.value || 0\<close>:
  the value of the first entry of the list whose operation is \<open>oper\<close>, and 0 when a link of
  the chain is absent or the value is itself falsy.
\<close>

definition blkio_first :: "string \<Rightarrow> stats \<Rightarrow> real" where
  "blkio_first oper st =
     (case blkio_stats st of
        None \<Rightarrow> 0
      | Some b \<Rightarrow>
          (case io_service_bytes_recursive b of
             None \<Rightarrow> 0
           | Some entries \<Rightarrow>
               (case find (\<lambda>s. op s = oper) entries of
                  None \<Rightarrow> 0
                | Some s \<Rightarrow> (if val s = 0 then 0 else val s))))"

definition formatBlockIO :: "(real \<Rightarrow> string) \<Rightarrow> stats \<Rightarrow> string" where
  "formatBlockIO toStr st =
     (let read = blkio_first ''Read'' st;
          write = blkio_first ''Write'' st
      in down_arrow @ formatBytes toStr read @ '' / '' @ up_arrow @ formatBytes toStr write)"

text \<open>
  What the specification says of block I/O: the byte counters of one operation summed
  over every entry of the sample.
\<close>

definition blkio_total :: "string \<Rightarrow> stats \<Rightarrow> real" where
  "blkio_total oper st =
     (case blkio_stats st of
        None \<Rightarrow> 0
      | Some b \<Rightarrow>
          (case io_service_bytes_recursive b of
             None \<Rightarrow> 0
           | Some entries \<Rightarrow> sum_list (map val (filter (\<lambda>s. op s = oper) entries))))"

section \<open>Docker stats: the handler of GET /stats\<close>

record container_info =
  Id :: string
  Names :: "string list"

record stats_entry =
  name :: string
  cpu :: string
  memory :: string
  network :: string
  disk :: string

text \<open>\<^verbatim>\<open>s.replace('/', '')\<close>: the first occurrence of the character is removed.\<close>

fun replace_first :: "char \<Rightarrow> string \<Rightarrow> string" where
  "replace_first c [] = []"
| "replace_first c (x # xs) = (if x = c then xs else x # replace_first c xs)"

text \<open>
  The body of the \<^verbatim>\<open>containers.map\<close> callback for one container, given the outcome of
  its \<^verbatim>\<open>container.stats\<close> call. \<^verbatim>\<open>containerInfo.Names[0]\<close> of an empty list is
  \<^verbatim>\<open>undefined\<close>, and calling \<^verbatim>\<open>replace\<close> on it throws a \<^verbatim>\<open>TypeError\<close>.
\<close>

definition stats_entry_of :: "(real \<Rightarrow> string) \<Rightarrow> container_info \<Rightarrow> error + stats \<Rightarrow> error + stats_entry" where
  "stats_entry_of toStr containerInfo outcome =
     (case outcome of
        Inl e \<Rightarrow> Inl e
      | Inr st \<Rightarrow>
          (case Names containerInfo of
             [] \<Rightarrow> Inl TypeError
           | n # _ \<Rightarrow>
               (let cpuPercent = calculateCPUPercentage st;
                    memoryUsage = formatMemoryUsage toStr st;
                    networkIO = formatNetworkIO toStr st;
                    blockIO = formatBlockIO toStr st
                in Inr \<lparr>name = replace_first (CHR ''/'') n,
                        cpu = toFixed toStr 2 cpuPercent @ ''%'',
                        memory = memoryUsage,
                        network = networkIO,
                        disk = blockIO\<rparr>)))"

text \<open>\<^verbatim>\<open>Promise.all\<close> over the entries: all of them, or a rejection.\<close>

fun all_or_error :: "(error + 'a) list \<Rightarrow> error + 'a list" where
  "all_or_error [] = Inr []"
| "all_or_error (Inl e # rs) = Inl e"
| "all_or_error (Inr x # rs) = (case all_or_error rs of Inl e \<Rightarrow> Inl e | Inr xs \<Rightarrow> Inr (x # xs))"

text \<open>
  The handler, given the outcome of \<^verbatim>\<open>docker.listContainers()\<close> and, for each container
  id, the outcome of its stats call. Whatever is thrown inside the \<^verbatim>\<open>try\<close> block is
  replaced by the one error of the \<^verbatim>\<open>catch\<close> block.
\<close>

definition stats_handler ::
  "(real \<Rightarrow> string) \<Rightarrow> error + container_info list \<Rightarrow> (string \<Rightarrow> error + stats) \<Rightarrow> error + stats_entry list" where
  "stats_handler toStr listContainers statsOf =
     (case listContainers of
        Inl e \<Rightarrow> Inl (Error ''Failed to fetch Docker stats'')
      | Inr containers \<Rightarrow>
          (case all_or_error (map (\<lambda>containerInfo. stats_entry_of toStr containerInfo (statsOf (Id containerInfo))) containers) of
             Inl e \<Rightarrow> Inl (Error ''Failed to fetch Docker stats'')
           | Inr entries \<Rightarrow> Inr entries))"

section \<open>System control: GET /logs\<close>

text \<open>
  \<^verbatim>\<open>execAsync(command)\<close> resolves with the standard output of the command or rejects
  (the command exits with a failure, cannot be started, or prints more than the buffer
  holds). The environment \<open>exec\<close> gives, for each command line, the outcome it has when
  it is run.
\<close>

type_synonym shell = "string \<Rightarrow> error + string"

record logs_response =
  logs :: string

definition journalctl_command :: string where
  "journalctl_command = ''journalctl -n 1000 --no-pager''"

definition tail_command :: string where
  "tail_command = ''tail -n 1000 /var/log/system.log''"

definition no_logs :: string where
  "no_logs = ''No system logs available''"

text \<open>
  The handler, with the commands it has run, in order. The inner \<^verbatim>\<open>try\<close> blocks catch
  every rejection, so the outer \<^verbatim>\<open>catch\<close> is never entered and the handler always
  answers.
\<close>

definition logs_handler :: "shell \<Rightarrow> string list \<times> (error + logs_response)" where
  "logs_handler exec =
     (case exec journalctl_command of
        Inr stdout \<Rightarrow> ([journalctl_command], Inr \<lparr>logs = stdout\<rparr>)
      | Inl e \<Rightarrow>
          (case exec tail_command of
             Inr stdout \<Rightarrow> ([journalctl_command, tail_command], Inr \<lparr>logs = stdout\<rparr>)
           | Inl e' \<Rightarrow> ([journalctl_command, tail_command], Inr \<lparr>logs = no_logs\<rparr>)))"

section \<open>The ISO builder\<close>

datatype step =
    setupBuildEnvironment
  | downloadBaseSystem
  | configureSystem
  | installPackages
  | installNestOSComponents
  | createISO

text \<open>
  A step works on the build tree and the host (the world \<open>'w\<close>) through shell commands
  and file operations. It either returns or rethrows what it caught; in both cases it
  leaves the world as it changed it. The environment \<open>run\<close> gives, for a step and the
  world it starts in, the error it throws, if any, and the world it leaves.
\<close>

type_synonym 'w steps = "step \<Rightarrow> 'w \<Rightarrow> error option \<times> 'w"

text \<open>
  The \<^verbatim>\<open>await\<close>s of the \<^verbatim>\<open>try\<close> block of \<^verbatim>\<open>buildIso\<close>, in their order. The result is the
  list of the steps that were started, the error that ended the block, if any, and
  the world at that point.
\<close>

definition pipeline :: "step list" where
  "pipeline =
     [setupBuildEnvironment, downloadBaseSystem, configureSystem,
      installPackages, installNestOSComponents, createISO]"

fun run_steps :: "'w steps \<Rightarrow> step list \<Rightarrow> 'w \<Rightarrow> step list \<times> error option \<times> 'w" where
  "run_steps run [] w = ([], None, w)"
| "run_steps run (s # ss) w =
     (case run s w of
        (Some e, w') \<Rightarrow> ([s], Some e, w')
      | (None, w') \<Rightarrow>
          (case run_steps run ss w' of (executed, r, w'') \<Rightarrow> (s # executed, r, w'')))"

text \<open>
  How the process ends: \<^verbatim>\<open>buildIso\<close> returns after the success message, or the
  \<^verbatim>\<open>catch\<close> block calls \<^verbatim>\<open>process.exit(1)\<close>.
\<close>

datatype ending = Returned | Exit nat

definition buildIso :: "'w steps \<Rightarrow> 'w \<Rightarrow> step list \<times> ending \<times> 'w" where
  "buildIso run w =
     (case run_steps run pipeline w of
        (executed, None, w') \<Rightarrow> (executed, Returned, w')
      | (executed, Some e, w') \<Rightarrow> (executed, Exit 1, w'))"

text \<open>
  For the statement of the claim: the world in which step number \<open>n\<close> of a list starts
  when the steps before it have run, and whether step number \<open>n\<close> fails there.
\<close>

definition world_before :: "'w steps \<Rightarrow> step list \<Rightarrow> 'w \<Rightarrow> nat \<Rightarrow> 'w" where
  "world_before run ss w n = foldl (\<lambda>w' s. snd (run s w')) w (take n ss)"

definition step_fails :: "'w steps \<Rightarrow> step list \<Rightarrow> 'w \<Rightarrow> nat \<Rightarrow> bool" where
  "step_fails run ss w n = (fst (run (ss ! n) (world_before run ss w n)) \<noteq> None)"

section \<open>Docker: removing containers and images\<close>

text \<open>
  A request, with its route parameters and its query string, and the calls a handler
  makes on the Docker client. A call either resolves or rejects; the environment
  \<open>docker\<close> gives the error of a rejected call.
\<close>

record request =
  params :: "string \<rightharpoonup> string"
  query :: "string \<rightharpoonup> string"

datatype docker_call =
    ContainerRemove string bool
  | ImageRemove string bool

type_synonym docker = "docker_call \<Rightarrow> error option"

record status_response =
  status :: string

text \<open>
  The flag schema \<^verbatim>\<open>z.string().optional().transform((val) => val === 'true')\<close> followed
  by \<^verbatim>\<open>.pipe(z.boolean().optional().default(false))\<close>.
\<close>

definition parse_flag :: "string option \<Rightarrow> bool" where
  "parse_flag v = (v = Some ''true'')"

text \<open>
  \<^verbatim>\<open>DELETE /containers/:id\<close>. The schema is applied to \<^verbatim>\<open>request.params\<close>: a missing
  \<^verbatim>\<open>id\<close> is a \<^verbatim>\<open>ZodError\<close>. The parsed \<^verbatim>\<open>force\<close> is not destructured and the call is
  made with \<^verbatim>\<open>{ force: false }\<close>.
\<close>

definition remove_container_handler :: "docker \<Rightarrow> request \<Rightarrow> docker_call list \<times> (error + status_response)" where
  "remove_container_handler docker req =
     (case params req ''id'' of
        None \<Rightarrow> ([], Inl ZodError)
      | Some ident \<Rightarrow>
          (let force = parse_flag (params req ''force'');
               call = ContainerRemove ident False
           in case docker call of
                Some e \<Rightarrow> ([call], Inl e)
              | None \<Rightarrow> ([call], Inr \<lparr>status = ''removed''\<rparr>)))"

text \<open>\<^verbatim>\<open>DELETE /images/:id\<close>, written the same way.\<close>

definition remove_image_handler :: "docker \<Rightarrow> request \<Rightarrow> docker_call list \<times> (error + status_response)" where
  "remove_image_handler docker req =
     (case params req ''id'' of
        None \<Rightarrow> ([], Inl ZodError)
      | Some ident \<Rightarrow>
          (let force = parse_flag (params req ''force'');
               call = ImageRemove ident False
           in case docker call of
                Some e \<Rightarrow> ([call], Inl e)
              | None \<Rightarrow> ([call], Inr \<lparr>status = ''removed''\<rparr>)))"

text \<open>The \<^verbatim>\<open>force\<close> option of a call to the Docker client.\<close>

fun call_force :: "docker_call \<Rightarrow> bool" where
  "call_force (ContainerRemove ident force) = force"
| "call_force (ImageRemove ident force) = force"

text \<open>
  For the statement of the claim on \<^verbatim>\<open>/logs\<close>: both sources fail, and the handler
  answers with the sentinel string.
\<close>

definition both_sources_fail :: "shell \<Rightarrow> bool" where
  "both_sources_fail exec = (isl (exec journalctl_command) \<and> isl (exec tail_command))"

definition returns_sentinel :: "shell \<Rightarrow> bool" where
  "returns_sentinel exec = (snd (logs_handler exec) = Inr \<lparr>logs = no_logs\<rparr>)"

text \<open>A host on which every log command succeeds and prints the text of the sentinel.\<close>

definition sentinel_shell :: shell where
  "sentinel_shell command = Inr no_logs"

section \<open>Docker: the port structures of POST /containers\<close>

text \<open>
  \<^verbatim>\<open>Number::toString\<close> of a non-negative integer: its decimal digits below
  \<^verbatim>\<open>10^21\<close>, and the exponent notation of the parameter \<open>toStr\<close> from there on. Both
  \<^verbatim>\<open>`${container}`\<close> and \<^verbatim>\<open>host.toString()\<close> are this conversion.
\<close>

definition number_toString :: "(real \<Rightarrow> string) \<Rightarrow> nat \<Rightarrow> string" where
  "number_toString toStr n = (if n < 10 ^ 21 then digits_of n else toStr (real n))"

text \<open>
  One entry of the \<^verbatim>\<open>ports\<close> list of the request body. The schema asks for two
  numbers; the model covers the port numbers that are non-negative integers.
\<close>

record port_spec =
  container :: nat
  host :: nat

record port_binding =
  HostPort :: string

type_synonym ExposedPorts = "string \<rightharpoonup> unit"
type_synonym PortMap = "string \<rightharpoonup> port_binding list"

text \<open>The key \<^verbatim>\<open>`${container}/tcp`\<close>.\<close>

definition portStr :: "(real \<Rightarrow> string) \<Rightarrow> nat \<Rightarrow> string" where
  "portStr toStr c = number_toString toStr c @ ''/tcp''"

text \<open>
  The callback of \<^verbatim>\<open>ports?.forEach\<close> on the two objects it assigns to, and the loop
  itself from the two empty objects; without a \<^verbatim>\<open>ports\<close> list both stay empty.
\<close>

definition add_port :: "(real \<Rightarrow> string) \<Rightarrow> ExposedPorts \<times> PortMap \<Rightarrow> port_spec \<Rightarrow> ExposedPorts \<times> PortMap" where
  "add_port toStr acc p =
     (case acc of
        (exposedPorts, portBindings) \<Rightarrow>
          (exposedPorts(portStr toStr (container p) \<mapsto> ()),
           portBindings(portStr toStr (container p) \<mapsto> [\<lparr>HostPort = number_toString toStr (host p)\<rparr>])))"

definition derive_ports :: "(real \<Rightarrow> string) \<Rightarrow> port_spec list option \<Rightarrow> ExposedPorts \<times> PortMap" where
  "derive_ports toStr ports =
     (case ports of
        None \<Rightarrow> (Map.empty, Map.empty)
      | Some ps \<Rightarrow> foldl (add_port toStr) (Map.empty, Map.empty) ps)"

section \<open>System information: GET /info\<close>

text \<open>A JSON value; an object keeps its keys in insertion order.\<close>

datatype json =
    JNull
  | JBool bool
  | JNum real
  | JStr string
  | JArr "json list"
  | JObj "(string \<times> json) list"

fun object_keys :: "json \<Rightarrow> string list" where
  "object_keys (JObj props) = map fst props"
| "object_keys other = []"

text \<open>
  A value of the parsed query string: a string, or an array of strings when the key is
  repeated. \<^verbatim>\<open>systemInfoSchema\<close> accepts an absent or a string \<^verbatim>\<open>detailed\<close>, turns it into
  \<^verbatim>\<open>val === 'true'\<close> and rejects anything else with a \<^verbatim>\<open>ZodError\<close>.
\<close>

datatype qvalue = QString string | QArray "string list"

definition parse_detailed :: "qvalue option \<Rightarrow> error + bool" where
  "parse_detailed v =
     (case v of
        None \<Rightarrow> Inr False
      | Some (QString s) \<Rightarrow> Inr (s = ''true'')
      | Some (QArray ss) \<Rightarrow> Inl ZodError)"

text \<open>The fields that the handler reads of what the host-facts provider returns.\<close>

record cpu_data =
  manufacturer :: string
  brand :: string
  cores :: real
  physicalCores :: real

record mem_data =
  total :: real
  free :: real
  used :: real
  active :: real
  available :: real

record os_data =
  hostname :: string
  platform :: string
  distro :: string
  release :: string
  arch :: string
  uptime :: "real option"

record system_data =
  manufacturer :: string
  model :: string
  serial :: string

record cpu_load =
  load :: real

record load_data =
  avgLoad :: "real option"
  currentLoad :: real
  cpus :: "cpu_load list"

record service_data =
  name :: string
  running :: bool
  startmode :: string

record docker_data =
  containers :: "real option"
  containersRunning :: "real option"
  containersPaused :: "real option"
  containersStopped :: "real option"
  images :: "real option"

text \<open>
  The outcome of each provider call of the handler, and \<^verbatim>\<open>process.uptime()\<close>. The three
  calls of the detailed mode are made in that mode only.
\<close>

record providers =
  si_cpu :: "error + cpu_data"
  si_mem :: "error + mem_data"
  si_osInfo :: "error + os_data"
  si_system :: "error + system_data"
  process_uptime :: real
  si_currentLoad :: "error + load_data"
  si_services :: "error + service_data list"
  si_dockerInfo :: "error + docker_data"

text \<open>\<^verbatim>\<open>x ?? d\<close> on an optional number.\<close>

definition nullish :: "real option \<Rightarrow> real \<Rightarrow> real" where
  "nullish x d = (case x of None \<Rightarrow> d | Some v \<Rightarrow> v)"

definition basicInfo :: "cpu_data \<Rightarrow> mem_data \<Rightarrow> os_data \<Rightarrow> real \<Rightarrow> (string \<times> json) list" where
  "basicInfo c m os up =
     (let systemUptime = nullish (uptime os) (of_int \<lfloor>up\<rfloor>)
      in [(''hostname'', JStr (hostname os)),
          (''platform'', JStr (platform os)),
          (''distro'', JStr (distro os)),
          (''release'', JStr (release os)),
          (''arch'', JStr (arch os)),
          (''uptime'', JNum systemUptime),
          (''cpu'', JObj [(''manufacturer'', JStr (cpu_data.manufacturer c)),
                         (''brand'', JStr (brand c)),
                         (''cores'', JNum (cores c)),
                         (''physicalCores'', JNum (physicalCores c))]),
          (''memory'', JObj [(''total'', JNum (total m)),
                            (''free'', JNum (free m)),
                            (''used'', JNum (used m)),
                            (''active'', JNum (active m)),
                            (''available'', JNum (available m))])])"

text \<open>The four properties that the detailed answer adds after the spread of \<^verbatim>\<open>basicInfo\<close>.\<close>

definition detailedInfo :: "system_data \<Rightarrow> load_data \<Rightarrow> service_data list \<Rightarrow> docker_data \<Rightarrow> (string \<times> json) list" where
  "detailedInfo sys l services dockerInfo =
     [(''system'', JObj [(''manufacturer'', JStr (system_data.manufacturer sys)),
                        (''model'', JStr (model sys)),
                        (''serial'', JStr (serial sys))]),
      (''load'', JObj [(''avgLoad'', JNum (nullish (avgLoad l) (currentLoad l))),
                      (''currentLoad'', JNum (currentLoad l)),
                      (''cpuLoad'', JArr (map (\<lambda>c. JNum (load c)) (cpus l)))]),
      (''services'', JArr (map (\<lambda>service.
          JObj [(''name'', JStr (service_data.name service)),
                (''running'', JBool (running service)),
                (''startmode'', JStr (startmode service))]) services)),
      (''docker'', JObj [(''containers'', JObj [(''total'', JNum (nullish (containers dockerInfo) 0)),
                                              (''running'', JNum (nullish (containersRunning dockerInfo) 0)),
                                              (''paused'', JNum (nullish (containersPaused dockerInfo) 0)),
                                              (''stopped'', JNum (nullish (containersStopped dockerInfo) 0))]),
                        (''images'', JNum (nullish (images dockerInfo) 0))])]"

text \<open>
  The handler. A rejected provider call rejects its \<^verbatim>\<open>Promise.all\<close> and the handler
  with it; when several calls of one \<^verbatim>\<open>Promise.all\<close> reject, the model reports the first
  in the order of the array.
\<close>

definition info_handler :: "qvalue option \<Rightarrow> providers \<Rightarrow> error + json" where
  "info_handler q prov =
     (case parse_detailed q of
        Inl e \<Rightarrow> Inl e
      | Inr detailed \<Rightarrow>
     (case si_cpu prov of Inl e \<Rightarrow> Inl e | Inr c \<Rightarrow>
     (case si_mem prov of Inl e \<Rightarrow> Inl e | Inr m \<Rightarrow>
     (case si_osInfo prov of Inl e \<Rightarrow> Inl e | Inr os \<Rightarrow>
     (case si_system prov of Inl e \<Rightarrow> Inl e | Inr sys \<Rightarrow>
        (if \<not> detailed then Inr (JObj (basicInfo c m os (process_uptime prov)))
         else
     (case si_currentLoad prov of Inl e \<Rightarrow> Inl e | Inr l \<Rightarrow>
     (case si_services prov of Inl e \<Rightarrow> Inl e | Inr services \<Rightarrow>
     (case si_dockerInfo prov of Inl e \<Rightarrow> Inl e | Inr dockerInfo \<Rightarrow>
        Inr (JObj (basicInfo c m os (process_uptime prov) @ detailedInfo sys l services dockerInfo)))))))))))"

text \<open>The key lists of the two answers, and a host for the examples.\<close>

definition basic_keys :: "string list" where
  "basic_keys = [''hostname'', ''platform'', ''distro'', ''release'', ''arch'', ''uptime'', ''cpu'', ''memory'']"

definition detailed_keys :: "string list" where
  "detailed_keys = [''system'', ''load'', ''services'', ''docker'']"

definition example_providers :: providers where
  "example_providers =
     \<lparr>si_cpu = Inr \<lparr>cpu_data.manufacturer = ''Intel'', brand = ''Core i5'', cores = 4, physicalCores = 2\<rparr>,
      si_mem = Inr \<lparr>total = 8192, free = 4096, used = 4096, active = 2048, available = 6144\<rparr>,
      si_osInfo = Inr \<lparr>hostname = ''nas'', platform = ''linux'', distro = ''Debian'', release = ''12'',
                      arch = ''x64'', uptime = None\<rparr>,
      si_system = Inr \<lparr>system_data.manufacturer = ''ACME'', model = ''N1'', serial = ''0001''\<rparr>,
      process_uptime = 12.5,
      si_currentLoad = Inr \<lparr>avgLoad = None, currentLoad = 3, cpus = [\<lparr>load = 1\<rparr>, \<lparr>load = 5\<rparr>]\<rparr>,
      si_services = Inr [\<lparr>service_data.name = ''sshd'', running = True, startmode = ''auto''\<rparr>],
      si_dockerInfo = Inr \<lparr>containers = Some 2, containersRunning = Some 1, containersPaused = None,
                          containersStopped = Some 1, images = Some 3\<rparr>\<rparr>"

section \<open>The performance test\<close>

text \<open>
  The regular expression \<^verbatim>\<open>/([0-9.]+) GB\/s/\<close>. Tried at the start of a string, the
  greedy group takes the longest run of digits and dots; the character that must follow
  is a space, which the group cannot contain, so no shorter run can match either. The
  match is the leftmost one, and \<^verbatim>\<open>stdout.match(...)?.[1]\<close> is its group.
\<close>

definition is_speed_char :: "char \<Rightarrow> bool" where
  "is_speed_char c = (c \<in> set ''0123456789.'')"

definition speed_unit :: string where
  "speed_unit = '' GB/s''"

definition match_here :: "string \<Rightarrow> string option" where
  "match_here s =
     (let cap = takeWhile is_speed_char s
      in if cap \<noteq> [] \<and> take (length speed_unit) (dropWhile is_speed_char s) = speed_unit
         then Some cap else None)"

fun regex_match :: "string \<Rightarrow> string option" where
  "regex_match [] = None"
| "regex_match (c # cs) =
     (case match_here (c # cs) of
        Some cap \<Rightarrow> Some cap
      | None \<Rightarrow> regex_match cs)"

text \<open>
  What the expression matches, as a language: some run of digits and dots, not empty,
  followed by \<^verbatim>\<open> GB/s\<close>, anywhere in the string.
\<close>

definition has_speed_match :: "string \<Rightarrow> bool" where
  "has_speed_match s =
     (\<exists>pre cap post. s = pre @ cap @ speed_unit @ post \<and> cap \<noteq> [] \<and> list_all is_speed_char cap)"

text \<open>
  \<^verbatim>\<open>parseFloat\<close> on the strings the handler gives it, which hold digits and dots only:
  the longest prefix that is a decimal literal (digits, then optionally a dot and
  digits; or a dot and at least one digit), and \<^verbatim>\<open>NaN\<close> when there is none. Signs,
  exponents and leading white space do not occur in these strings.
\<close>

definition parseFloat :: "string \<Rightarrow> number" where
  "parseFloat s =
     (let ip = takeWhile is_digit s;
          rest = dropWhile is_digit s
      in case rest of
           [] \<Rightarrow> (if ip = [] then NaN else Num (real (digits_value ip)))
         | c # rest' \<Rightarrow>
             (if c = CHR ''.''
              then (let fp = takeWhile is_digit rest'
                    in if ip = [] \<and> fp = [] then NaN
                       else Num (real (digits_value ip) + real (digits_value fp) / 10 ^ length fp))
              else (if ip = [] then NaN else Num (real (digits_value ip)))))"

text \<open>
  \<^verbatim>\<open>parseFloat(stdout.match(/([0-9.]+) GB\/s/)?.[1] || '0') * 1024\<close>: without a match
  the group is \<^verbatim>\<open>undefined\<close> and \<^verbatim>\<open>'0'\<close> is parsed instead.
\<close>

definition parse_speed :: "string \<Rightarrow> number" where
  "parse_speed stdout =
     js_mul
       (parseFloat (case regex_match stdout of
                      None \<Rightarrow> ''0''
                    | Some cap \<Rightarrow> (if cap = [] then ''0'' else cap)))
       (Num 1024)"

text \<open>The commands of the test, and the in-process measurements and provider calls.\<close>

definition dd_memory_read :: string where
  "dd_memory_read = ''dd if=/dev/zero of=/dev/null bs=1M count=1000''"

definition dd_memory_write :: string where
  "dd_memory_write = ''dd if=/dev/zero of=/tmp/test bs=1M count=1000''"

definition dd_disk_write :: string where
  "dd_disk_write = ''dd if=/dev/zero of=/tmp/testfile bs=1M count=1000''"

definition dd_disk_read :: string where
  "dd_disk_read = ''dd if=/tmp/testfile of=/dev/null bs=1M count=1000''"

definition fio_command :: string where
  "fio_command = ''fio --name=randread --ioengine=libaio --direct=1 --bs=4k --iodepth=32 --size=1G --rw=randread --runtime=10 --filename=/tmp/testfile --output-format=json''"

definition cleanup_command :: string where
  "cleanup_command = ''rm -f /tmp/testfile /tmp/test''"

record measurements =
  loop_time :: real
  load_first :: "error + load_data"
  load_second :: "error + load_data"
  alloc_time :: real

record cpu_result =
  singleCore :: real
  multiCore :: real
  loadAverage :: "real option list"

record memory_result =
  readSpeed :: number
  writeSpeed :: number
  latency :: real

record disk_result =
  readSpeed :: number
  writeSpeed :: number
  iops :: real

record performance_result =
  cpu :: cpu_result
  memory :: memory_result
  disk :: disk_result

text \<open>
  The handler. \<open>fio_iops\<close> stands for \<^verbatim>\<open>JSON.parse(stdout).jobs[0].read.iops\<close>, which
  throws on a report that is not JSON or has no first job. Each \<^verbatim>\<open>Promise.all\<close> is
  awaited before the next starts, and whatever is thrown is rethrown with the message
  \<^verbatim>\<open>Performance test failed\<close> in front.
\<close>

definition performance_test :: "shell \<Rightarrow> measurements \<Rightarrow> (string \<Rightarrow> error + real) \<Rightarrow> error + performance_result" where
  "performance_test exec meas fio_iops =
     (case load_first meas of Inl e \<Rightarrow> Inl e | Inr cpuTest1 \<Rightarrow>
     (case load_second meas of Inl e \<Rightarrow> Inl e | Inr cpuTest2 \<Rightarrow>
     (case exec dd_memory_read of Inl e \<Rightarrow> Inl e | Inr memTest0 \<Rightarrow>
     (case exec dd_memory_write of Inl e \<Rightarrow> Inl e | Inr memTest1 \<Rightarrow>
     (case exec dd_disk_write of Inl e \<Rightarrow> Inl e | Inr diskTest0 \<Rightarrow>
     (case exec dd_disk_read of Inl e \<Rightarrow> Inl e | Inr diskTest1 \<Rightarrow>
     (case exec fio_command of Inl e \<Rightarrow> Inl e | Inr diskTest2 \<Rightarrow>
     (case exec cleanup_command of Inl e \<Rightarrow> Inl e | Inr cleaned \<Rightarrow>
     (case fio_iops diskTest2 of Inl e \<Rightarrow> Inl e | Inr n \<Rightarrow>
        Inr \<lparr>cpu = \<lparr>singleCore = loop_time meas,
                    multiCore = currentLoad cpuTest1,
                    loadAverage = [avgLoad cpuTest2]\<rparr>,
             memory = \<lparr>memory_result.readSpeed = parse_speed memTest0,
                       memory_result.writeSpeed = parse_speed memTest1,
                       latency = alloc_time meas\<rparr>,
             disk = \<lparr>readSpeed = parse_speed diskTest1,
                     writeSpeed = parse_speed diskTest0,
                     iops = n\<rparr>\<rparr>)))))))))"

definition performance_handler :: "shell \<Rightarrow> measurements \<Rightarrow> (string \<Rightarrow> error + real) \<Rightarrow> error + performance_result" where
  "performance_handler exec meas fio_iops =
     (case performance_test exec meas fio_iops of
        Inl e \<Rightarrow> Inl (Wrapped ''Performance test failed: '' e)
      | Inr result \<Rightarrow> Inr result)"

text \<open>Measurements for the examples.\<close>

definition example_measurements :: measurements where
  "example_measurements =
     \<lparr>loop_time = 4,
      load_first = Inr \<lparr>avgLoad = Some 1, currentLoad = 3, cpus = []\<rparr>,
      load_second = Inr \<lparr>avgLoad = Some 1, currentLoad = 3, cpus = []\<rparr>,
      alloc_time = 20\<rparr>"

section \<open>Evaluating toFixed\<close>

lemma digits_of_small: "n < 10 \<Longrightarrow> digits_of n = [digit_char n]"
  by (simp add: digits_of.simps)

lemma digits_of_large: "10 \<le> n \<Longrightarrow> digits_of n = digits_of (n div 10) @ [digit_char (n mod 10)]"
  by (subst digits_of.simps) simp

lemmas toFixed_eval = toFixed_def fixed_notation_def digits_of_small digits_of_large digit_char_def

lemma toFixed_not_finite:
  "v \<in> {NaN, Infinity, NegInfinity} \<Longrightarrow>
   toFixed toStr f v \<in> {''NaN'', ''Infinity'', ''-Infinity''}"
  by (auto simp: toFixed_def)

subsection \<open>Decimal digits\<close>

lemma of_char_digit_char: "d < 10 \<Longrightarrow> of_char (digit_char d) = 48 + d"
proof -
  assume "d < 10"
  then have "d = 0 \<or> d = 1 \<or> d = 2 \<or> d = 3 \<or> d = 4 \<or> d = 5 \<or> d = 6 \<or> d = 7 \<or> d = 8 \<or> d = 9"
    by auto
  then show ?thesis
    by (auto simp: digit_char_def)
qed

lemma digits_value_snoc: "digits_value (s @ [c]) = 10 * digits_value s + (of_char c - 48)"
  by (simp add: digits_value_def)

text \<open>A number is what its decimal digits denote, so the digits determine the number.\<close>

lemma digits_value_digits_of: "digits_value (digits_of n) = n"
proof (induction n rule: digits_of.induct)
  case (1 n)
  show ?case
  proof (cases "n < 10")
    case True
    then show ?thesis
      by (simp add: digits_of_small digits_value_def of_char_digit_char)
  next
    case False
    with "1.IH" have "digits_value (digits_of (n div 10)) = n div 10"
      by simp
    with False show ?thesis
      by (simp add: digits_of_large digits_value_snoc of_char_digit_char)
  qed
qed

lemma digits_of_inject: "digits_of n = digits_of m \<Longrightarrow> n = m"
  by (metis digits_value_digits_of)

lemma is_digit_digit_char: "is_digit (digit_char d)"
proof -
  have "d mod 10 < length ''0123456789''"
    by simp
  then have "''0123456789'' ! (d mod 10) \<in> set ''0123456789''"
    by (rule nth_mem)
  then show ?thesis
    by (simp only: is_digit_def digit_char_def)
qed

lemma digits_of_all_digits: "list_all is_digit (digits_of n)"
proof (induction n rule: digits_of.induct)
  case (1 n)
  show ?case
  proof (cases "n < 10")
    case True
    then show ?thesis
      by (simp add: digits_of_small is_digit_digit_char)
  next
    case False
    with "1.IH" show ?thesis
      by (simp add: digits_of_large is_digit_digit_char)
  qed
qed

lemma digits_value_zeros: "digits_value (replicate k (CHR ''0'') @ s) = digits_value s"
proof -
  have "foldl (\<lambda>a c. 10 * a + (of_char c - 48)) (0::nat) (replicate k (CHR ''0'')) = 0"
    by (induction k) simp_all
  then show ?thesis
    by (simp add: digits_value_def)
qed

text \<open>
  The fixed-point branch with two fraction digits: some digits, a point and two digits,
  which together denote the value times 100, rounded to the nearest integer.
\<close>

lemma fixed_notation_two_decimals:
  "\<exists>a b. fixed_notation 2 x = a @ ''.'' @ b \<and> a \<noteq> [] \<and> length b = 2 \<and>
         list_all is_digit (a @ b) \<and> digits_value (a @ b) = nat \<lfloor>x * 100 + 1 / 2\<rfloor>"
proof -
  define n where "n = nat \<lfloor>x * 100 + 1 / 2\<rfloor>"
  define m' where "m' = replicate (3 - length (digits_of n)) (CHR ''0'') @ digits_of n"
  define a where "a = take (length m' - 2) m'"
  define b where "b = drop (length m' - 2) m'"
  have k: "3 \<le> length m'"
    by (simp add: m'_def)
  have shape: "fixed_notation 2 x = a @ ''.'' @ b"
    by (simp add: fixed_notation_def Let_def a_def b_def m'_def n_def)
  have whole: "a @ b = m'"
    by (simp add: a_def b_def)
  from k have "a \<noteq> []"
    by (auto simp: a_def)
  moreover from k have "length b = 2"
    by (simp add: b_def)
  moreover have "list_all is_digit m'"
  proof -
    have "is_digit (CHR ''0'')"
      by (simp add: is_digit_def)
    then have "list_all is_digit (replicate (3 - length (digits_of n)) (CHR ''0''))"
      by (simp add: list_all_iff)
    with digits_of_all_digits [of n] show ?thesis
      by (simp add: m'_def)
  qed
  moreover have "digits_value m' = n"
    by (simp only: m'_def digits_value_zeros digits_value_digits_of)
  ultimately show ?thesis
    using shape whole unfolding n_def by metis
qed

lemma toFixed_fixed_notation:
  "0 \<le> x \<Longrightarrow> x < 10 ^ 21 \<Longrightarrow> toFixed toStr f (Num x) = fixed_notation f x"
  by (simp add: toFixed_def)

section \<open>Properties of formatBytes\<close>

lemma length_units: "length units = 5"
  by (simp add: units_def)

text \<open>
  The loop started at index \<open>i\<close>: the index only grows and stays on the ladder, the
  result is the start value divided by 1024 once per step, it is below 1024 unless the
  top unit was reached, and every value passed on the way was at least 1024.
\<close>

lemma formatBytes_loop_spec:
  "formatBytes_loop sz i = (sz', i') \<Longrightarrow> i \<le> 4 \<Longrightarrow>
     i \<le> i' \<and> i' \<le> 4 \<and> sz' = sz / 1024 ^ (i' - i) \<and> (i' < 4 \<longrightarrow> sz' < 1024) \<and>
     (\<forall>j. i \<le> j \<and> j < i' \<longrightarrow> 1024 \<le> sz / 1024 ^ (j - i))"
proof (induction sz i rule: formatBytes_loop.induct)
  case (1 sz i)
  show ?case
  proof (cases "1024 \<le> sz \<and> i < length units - 1")
    case False
    then have "formatBytes_loop sz i = (sz, i)"
      by (subst formatBytes_loop.simps) (simp only: if_False simp_thms)
    with "1.prems" have "sz' = sz" "i' = i"
      by simp_all
    with False "1.prems" show ?thesis
      by (auto simp: length_units)
  next
    case True
    then have "formatBytes_loop sz i = formatBytes_loop (sz / 1024) (i + 1)"
      by (subst formatBytes_loop.simps) (simp only: if_True simp_thms)
    with "1.prems" have run: "formatBytes_loop (sz / 1024) (i + 1) = (sz', i')"
      by simp
    from True have "i + 1 \<le> 4"
      by (simp add: length_units)
    from "1.IH" [OF True run this]
    have ih: "i + 1 \<le> i'" "i' \<le> 4" "sz' = sz / 1024 / 1024 ^ (i' - (i + 1))"
      "i' < 4 \<longrightarrow> sz' < 1024"
      "\<forall>j. i + 1 \<le> j \<and> j < i' \<longrightarrow> 1024 \<le> sz / 1024 / 1024 ^ (j - (i + 1))"
      by blast+
    have pw: "sz / 1024 / 1024 ^ (k - (i + 1)) = sz / 1024 ^ (k - i)" if "i + 1 \<le> k" for k
    proof -
      from that have "k - i = Suc (k - (i + 1))" by simp
      then show ?thesis by simp
    qed
    have "1024 \<le> sz / 1024 ^ (j - i)" if "i \<le> j" "j < i'" for j
    proof (cases "j = i")
      case True
      with \<open>1024 \<le> sz \<and> i < length units - 1\<close> show ?thesis by simp
    next
      case False
      with that have le: "i + 1 \<le> j" by simp
      with ih(5) that have "1024 \<le> sz / 1024 / 1024 ^ (j - (i + 1))" by blast
      then show ?thesis by (simp only: pw [OF le])
    qed
    moreover from ih(3) have "sz' = sz / 1024 ^ (i' - i)"
      by (simp only: pw [OF ih(1)])
    moreover from ih(1) have "i \<le> i'" by simp
    ultimately show ?thesis using ih(2,4) by blast
  qed
qed

lemma formatBytes_loop_smallest:
  "smallest_unit_below bytes (snd (formatBytes_loop bytes 0)) \<and>
   fst (formatBytes_loop bytes 0) = scaled bytes (snd (formatBytes_loop bytes 0))"
proof -
  obtain sz i where run: "formatBytes_loop bytes 0 = (sz, i)"
    by (cases "formatBytes_loop bytes 0")
  from formatBytes_loop_spec [OF run]
  have "i \<le> 4" "sz = bytes / 1024 ^ i" "i < 4 \<longrightarrow> sz < 1024"
    "\<forall>j. j < i \<longrightarrow> 1024 \<le> bytes / 1024 ^ j"
    by auto
  then show ?thesis
    unfolding run smallest_unit_below_def scaled_def length_units list_all_iff
    by auto
qed




section \<open>Properties of the stats helpers\<close>

lemma calculateCPUPercentage_finite:
  "systemDelta st \<noteq> 0 \<Longrightarrow>
   calculateCPUPercentage st = Num (cpuDelta st / systemDelta st * online_cpus (cpu_stats st) * 100)"
  by (simp add: calculateCPUPercentage_def)

lemma calculateCPUPercentage_zero_delta:
  "systemDelta st = 0 \<Longrightarrow> calculateCPUPercentage st \<in> {NaN, Infinity, NegInfinity}"
  by (simp add: calculateCPUPercentage_def sgn_if)



subsection \<open>Network and block I/O\<close>

lemma foldl_add_sum_list:
  "foldl (\<lambda>acc x. acc + f x) a xs = (a::real) + sum_list (map f xs)"
  by (induction xs arbitrary: a) (simp_all add: add.assoc)

text \<open>
  The network half of claim C3 holds: the two figures of \<^verbatim>\<open>formatNetworkIO\<close> are the sums
  of the received and of the transmitted bytes over every interface of the sample.
\<close>

lemma formatNetworkIO_sums:
  "network_rx st = sum_list (map rx_bytes (network_values st)) \<and>
   network_tx st = sum_list (map tx_bytes (network_values st)) \<and>
   formatNetworkIO toStr st =
     down_arrow @ formatBytes toStr (sum_list (map rx_bytes (network_values st))) @ '' / '' @
     up_arrow @ formatBytes toStr (sum_list (map tx_bytes (network_values st)))"
  by (simp add: formatNetworkIO_def network_rx_def network_tx_def foldl_add_sum_list)

lemma formatBytes_100: "formatBytes toStr 100 = ''100.00B''"
  by (simp add: formatBytes_def formatBytes_loop.simps [of 100 0] toFixed_eval units_def)

lemma formatBytes_7: "formatBytes toStr 7 = ''7.00B''"
  by (simp add: formatBytes_def formatBytes_loop.simps [of 7 0] toFixed_eval units_def)

text \<open>
  Claim C3, the block I/O half, on the example sample with two block devices (read
  counters 100 and 200, write counters 7 and 9): \<^verbatim>\<open>formatBlockIO\<close> reports the first
  read entry and the first write entry, 100 and 7 bytes, where the sums over the devices
  are 300 and 16 bytes.
\<close>

theorem formatBlockIO_first_entry_only:
  "blkio_first ''Read'' example_stats = 100 \<and> blkio_total ''Read'' example_stats = 300 \<and>
   blkio_first ''Write'' example_stats = 7 \<and> blkio_total ''Write'' example_stats = 16 \<and>
   formatBlockIO exponent_free example_stats = down_arrow @ ''100.00B / '' @ up_arrow @ ''7.00B''"
proof -
  have first: "blkio_first ''Read'' example_stats = 100" "blkio_first ''Write'' example_stats = 7"
    by (simp_all add: blkio_first_def example_stats_def)
  have total: "blkio_total ''Read'' example_stats = 300" "blkio_total ''Write'' example_stats = 16"
    by (simp_all add: blkio_total_def example_stats_def)
  have "formatBlockIO exponent_free example_stats = down_arrow @ ''100.00B / '' @ up_arrow @ ''7.00B''"
    by (simp add: formatBlockIO_def first formatBytes_100 formatBytes_7)
  with first total show ?thesis
    by blast
qed

subsection \<open>The handler of GET /stats\<close>

lemma all_or_error_Inr:
  "(\<And>r. r \<in> set rs \<Longrightarrow> \<exists>x. r = Inr x) \<Longrightarrow> all_or_error rs = Inr (map projr rs)"
proof (induction rs)
  case Nil
  then show ?case by simp
next
  case (Cons r rs)
  then obtain x where "r = Inr x" by auto
  with Cons show ?case by simp
qed

lemma stats_entry_of_Inr:
  "Names containerInfo \<noteq> [] \<Longrightarrow>
   \<exists>entry. stats_entry_of toStr containerInfo (Inr st) = Inr entry \<and>
           stats_entry.cpu entry = toFixed toStr 2 (calculateCPUPercentage st) @ ''%''"
  by (cases "Names containerInfo") (simp_all add: stats_entry_of_def)

text \<open>
  When the container list and every stats call succeed and every container has a name,
  the handler answers with one entry per container, in the order of the list.
\<close>

lemma stats_handler_Inr:
  assumes "\<forall>c \<in> set cs. Names c \<noteq> [] \<and> (\<exists>s. statsOf (Id c) = Inr s)"
  shows "stats_handler toStr (Inr cs) statsOf =
         Inr (map (\<lambda>c. projr (stats_entry_of toStr c (statsOf (Id c)))) cs)"
proof -
  let ?rs = "map (\<lambda>c. stats_entry_of toStr c (statsOf (Id c))) cs"
  have "\<exists>x. r = Inr x" if "r \<in> set ?rs" for r
  proof -
    from that obtain c where c: "c \<in> set cs" "r = stats_entry_of toStr c (statsOf (Id c))"
      by auto
    with assms obtain s where "Names c \<noteq> []" "statsOf (Id c) = Inr s"
      by blast
    with c stats_entry_of_Inr [of c toStr s] show ?thesis
      by auto
  qed
  then have "all_or_error ?rs = Inr (map projr ?rs)"
    by (rule all_or_error_Inr)
  then show ?thesis
    by (simp add: stats_handler_def comp_def)
qed



section \<open>Properties of GET /logs\<close>

lemma commands_differ: "journalctl_command \<noteq> tail_command"
  by (simp add: journalctl_command_def tail_command_def)




section \<open>Properties of the ISO builder\<close>

lemma world_before_Cons:
  "world_before run (s # ss) w (Suc n) = world_before run ss (snd (run s w)) n"
  by (simp add: world_before_def)

lemma step_fails_Cons:
  "step_fails run (s # ss) w (Suc n) = step_fails run ss (snd (run s w)) n"
  by (simp add: step_fails_def world_before_Cons)

lemma step_fails_0: "step_fails run (s # ss) w 0 = (fst (run s w) \<noteq> None)"
  by (simp add: step_fails_def world_before_def)

text \<open>A run in which the step at position \<open>n\<close> is the first to fail stops right after it.\<close>

lemma run_steps_first_failure:
  "n < length ss \<Longrightarrow> \<forall>k<n. \<not> step_fails run ss w k \<Longrightarrow> step_fails run ss w n \<Longrightarrow>
   \<exists>e w'. run_steps run ss w = (take (Suc n) ss, Some e, w')"
proof (induction ss arbitrary: w n)
  case Nil
  then show ?case by simp
next
  case (Cons s ss)
  obtain r w1 where step: "run s w = (r, w1)"
    by (cases "run s w")
  show ?case
  proof (cases n)
    case 0
    with Cons.prems step obtain e where "r = Some e"
      by (auto simp: step_fails_0)
    with step 0 show ?thesis
      by simp
  next
    case (Suc m)
    with Cons.prems have "\<not> step_fails run (s # ss) w 0"
      by blast
    with step have none: "r = None"
      by (simp add: step_fails_0)
    from Cons.prems Suc have "m < length ss"
      by simp
    moreover have "\<forall>k<m. \<not> step_fails run ss w1 k"
    proof (intro allI impI)
      fix k assume "k < m"
      with Suc have "Suc k < n" by simp
      with Cons.prems have "\<not> step_fails run (s # ss) w (Suc k)" by blast
      with step show "\<not> step_fails run ss w1 k"
        by (simp add: step_fails_Cons)
    qed
    moreover from Cons.prems Suc step have "step_fails run ss w1 m"
      by (simp add: step_fails_Cons)
    ultimately obtain e w' where "run_steps run ss w1 = (take (Suc m) ss, Some e, w')"
      using Cons.IH by blast
    with step none Suc show ?thesis
      by simp
  qed
qed

text \<open>A run in which no step fails goes through the whole list.\<close>

lemma run_steps_no_failure:
  "\<forall>k<length ss. \<not> step_fails run ss w k \<Longrightarrow>
   run_steps run ss w = (ss, None, world_before run ss w (length ss))"
proof (induction ss arbitrary: w)
  case Nil
  then show ?case by (simp add: world_before_def)
next
  case (Cons s ss)
  obtain r w1 where step: "run s w = (r, w1)"
    by (cases "run s w")
  from Cons.prems have "\<not> step_fails run (s # ss) w 0"
    by auto
  with step have none: "r = None"
    by (simp add: step_fails_0)
  have "\<forall>k<length ss. \<not> step_fails run ss w1 k"
  proof (intro allI impI)
    fix k assume "k < length ss"
    then have "Suc k < length (s # ss)" by simp
    with Cons.prems have "\<not> step_fails run (s # ss) w (Suc k)" by blast
    with step show "\<not> step_fails run ss w1 k"
      by (simp add: step_fails_Cons)
  qed
  then have "run_steps run ss w1 = (ss, None, world_before run ss w1 (length ss))"
    by (rule Cons.IH)
  with step none show ?case
    by (simp add: world_before_Cons)
qed

lemma pipeline_distinct: "distinct pipeline \<and> length pipeline = 6"
  by (simp add: pipeline_def)

lemma later_steps_not_in_prefix:
  "distinct ss \<Longrightarrow> n < m \<Longrightarrow> m < length ss \<Longrightarrow> ss ! m \<notin> set (take (Suc n) ss)"
proof
  assume d: "distinct ss" and nm: "n < m" and m: "m < length ss"
    and mem: "ss ! m \<in> set (take (Suc n) ss)"
  then obtain j where j: "j < Suc n" "j < length ss" "take (Suc n) ss ! j = ss ! m"
    by (auto simp: in_set_conv_nth)
  then have "ss ! j = ss ! m"
    by simp
  with d j m have "j = m"
    by (simp add: nth_eq_iff_index_eq)
  with j nm show False
    by simp
qed



section \<open>Properties of the remove handlers\<close>

lemma remove_container_handler_id:
  "params r1 ''id'' = params r2 ''id'' \<Longrightarrow>
   remove_container_handler docker r1 = remove_container_handler docker r2"
  by (cases "params r2 ''id''") (simp_all add: remove_container_handler_def Let_def)

lemma remove_image_handler_id:
  "params r1 ''id'' = params r2 ''id'' \<Longrightarrow>
   remove_image_handler docker r1 = remove_image_handler docker r2"
  by (cases "params r2 ''id''") (simp_all add: remove_image_handler_def Let_def)

lemma remove_handlers_never_force:
  "c \<in> set (fst (remove_container_handler docker r)) \<union> set (fst (remove_image_handler docker r)) \<Longrightarrow>
   \<not> call_force c"
  by (auto simp: remove_container_handler_def remove_image_handler_def Let_def
      split: option.splits)

text \<open>
  Claim C9: the \<^verbatim>\<open>force\<close> parameter has no effect on the two remove handlers. Two
  requests with the same \<^verbatim>\<open>id\<close> make the same calls on the Docker client and get the
  same answer, whatever their \<^verbatim>\<open>force\<close> values are, in the route parameters or in the
  query string; and every call a remove handler makes has \<^verbatim>\<open>force\<close> set to false.
\<close>

theorem remove_ignores_force:
  "(params r1 ''id'' = params r2 ''id'' \<longrightarrow>
      remove_container_handler docker r1 = remove_container_handler docker r2 \<and>
      remove_image_handler docker r1 = remove_image_handler docker r2) \<and>
   remove_container_handler docker (r\<lparr>params := (params r)(''force'' := f1), query := (query r)(''force'' := g1)\<rparr>) =
     remove_container_handler docker (r\<lparr>params := (params r)(''force'' := f2), query := (query r)(''force'' := g2)\<rparr>) \<and>
   remove_image_handler docker (r\<lparr>params := (params r)(''force'' := f1), query := (query r)(''force'' := g1)\<rparr>) =
     remove_image_handler docker (r\<lparr>params := (params r)(''force'' := f2), query := (query r)(''force'' := g2)\<rparr>) \<and>
   (\<forall>c \<in> set (fst (remove_container_handler docker r)) \<union> set (fst (remove_image_handler docker r)).
      \<not> call_force c)"
proof -
  have "remove_container_handler docker (r\<lparr>params := (params r)(''force'' := f1), query := (query r)(''force'' := g1)\<rparr>) =
     remove_container_handler docker (r\<lparr>params := (params r)(''force'' := f2), query := (query r)(''force'' := g2)\<rparr>)"
    by (rule remove_container_handler_id) simp
  moreover
  have "remove_image_handler docker (r\<lparr>params := (params r)(''force'' := f1), query := (query r)(''force'' := g1)\<rparr>) =
     remove_image_handler docker (r\<lparr>params := (params r)(''force'' := f2), query := (query r)(''force'' := g2)\<rparr>)"
    by (rule remove_image_handler_id) simp
  ultimately show ?thesis
    using remove_container_handler_id [of r1 r2 docker] remove_image_handler_id [of r1 r2 docker]
      remove_handlers_never_force [of _ docker r]
    by blast
qed

theorem remove_ignores_force_witness:
  "remove_container_handler (\<lambda>call. None)
     \<lparr>params = [''id'' \<mapsto> ''abc'', ''force'' \<mapsto> ''true''], query = [''force'' \<mapsto> ''true'']\<rparr> =
   remove_container_handler (\<lambda>call. None) \<lparr>params = [''id'' \<mapsto> ''abc''], query = Map.empty\<rparr> \<and>
   remove_image_handler (\<lambda>call. None)
     \<lparr>params = [''id'' \<mapsto> ''abc'', ''force'' \<mapsto> ''true''], query = [''force'' \<mapsto> ''true'']\<rparr> =
   remove_image_handler (\<lambda>call. None) \<lparr>params = [''id'' \<mapsto> ''abc''], query = Map.empty\<rparr> \<and>
   fst (remove_container_handler (\<lambda>call. None)
     \<lparr>params = [''id'' \<mapsto> ''abc'', ''force'' \<mapsto> ''true''], query = [''force'' \<mapsto> ''true'']\<rparr>) =
     [ContainerRemove ''abc'' False] \<and>
   \<not> call_force (ContainerRemove ''abc'' False)"
proof -
  let ?forced = "\<lparr>params = [''id'' \<mapsto> ''abc'', ''force'' \<mapsto> ''true''], query = [''force'' \<mapsto> ''true'']\<rparr>"
  let ?plain = "\<lparr>params = [''id'' \<mapsto> ''abc''], query = Map.empty\<rparr>"
  have same: "params ?forced ''id'' = params ?plain ''id''"
    by simp
  have calls: "fst (remove_container_handler (\<lambda>call. None) ?forced) = [ContainerRemove ''abc'' False]"
    by (simp add: remove_container_handler_def)
  note claim = remove_ignores_force [of ?forced ?plain "\<lambda>call. None" ?forced]
  from claim same
  have "remove_container_handler (\<lambda>call. None) ?forced = remove_container_handler (\<lambda>call. None) ?plain"
    and "remove_image_handler (\<lambda>call. None) ?forced = remove_image_handler (\<lambda>call. None) ?plain"
    by blast+
  moreover from claim calls have "\<not> call_force (ContainerRemove ''abc'' False)"
    by simp
  ultimately show ?thesis
    using calls by blast
qed

section \<open>Properties of the port structures\<close>

lemma portStr_inject:
  "c < 10 ^ 21 \<Longrightarrow> c' < 10 ^ 21 \<Longrightarrow> portStr toStr c = portStr toStr c' \<Longrightarrow> c = c'"
  by (simp add: portStr_def number_toString_def digits_of_inject)

lemma foldl_add_port_other:
  "\<forall>p \<in> set ps. portStr toStr (container p) \<noteq> k \<Longrightarrow>
   fst (foldl (add_port toStr) acc ps) k = fst acc k \<and>
   snd (foldl (add_port toStr) acc ps) k = snd acc k"
proof (induction ps arbitrary: acc)
  case Nil
  then show ?case by simp
next
  case (Cons p ps)
  then have "fst (foldl (add_port toStr) (add_port toStr acc p) ps) k = fst (add_port toStr acc p) k \<and>
             snd (foldl (add_port toStr) (add_port toStr acc p) ps) k = snd (add_port toStr acc p) k"
    by simp
  moreover from Cons.prems have "portStr toStr (container p) \<noteq> k"
    by simp
  then have "fst (add_port toStr acc p) k = fst acc k \<and> snd (add_port toStr acc p) k = snd acc k"
    by (cases acc) (simp add: add_port_def)
  ultimately show ?case
    by simp
qed

lemma foldl_add_port_last:
  assumes i: "i < length ps"
    and later: "\<forall>j. i < j \<and> j < length ps \<longrightarrow> portStr toStr (container (ps ! j)) \<noteq> portStr toStr (container (ps ! i))"
  shows "fst (foldl (add_port toStr) acc ps) (portStr toStr (container (ps ! i))) = Some () \<and>
         snd (foldl (add_port toStr) acc ps) (portStr toStr (container (ps ! i))) =
           Some [\<lparr>HostPort = number_toString toStr (host (ps ! i))\<rparr>]"
proof -
  let ?k = "portStr toStr (container (ps ! i))"
  let ?mid = "add_port toStr (foldl (add_port toStr) acc (take i ps)) (ps ! i)"
  from i have split: "ps = take i ps @ ps ! i # drop (Suc i) ps"
    by (rule id_take_nth_drop)
  have "foldl (add_port toStr) acc ps = foldl (add_port toStr) acc (take i ps @ ps ! i # drop (Suc i) ps)"
    using split by simp
  then have run: "foldl (add_port toStr) acc ps = foldl (add_port toStr) ?mid (drop (Suc i) ps)"
    by simp
  have "\<forall>p \<in> set (drop (Suc i) ps). portStr toStr (container p) \<noteq> ?k"
  proof
    fix p assume "p \<in> set (drop (Suc i) ps)"
    then obtain j where "j < length (drop (Suc i) ps)" "p = drop (Suc i) ps ! j"
      by (auto simp: in_set_conv_nth)
    then have "p = ps ! (Suc i + j)" "Suc i + j < length ps"
      by auto
    with later show "portStr toStr (container p) \<noteq> ?k"
      by auto
  qed
  from foldl_add_port_other [OF this, of ?mid]
  have "fst (foldl (add_port toStr) ?mid (drop (Suc i) ps)) ?k = fst ?mid ?k"
    and "snd (foldl (add_port toStr) ?mid (drop (Suc i) ps)) ?k = snd ?mid ?k"
    by blast+
  moreover have "fst ?mid ?k = Some () \<and> snd ?mid ?k = Some [\<lparr>HostPort = number_toString toStr (host (ps ! i))\<rparr>]"
    by (cases "foldl (add_port toStr) acc (take i ps)") (simp add: add_port_def)
  ultimately show ?thesis
    by (simp only: run)
qed

lemma number_toString_80: "number_toString toStr 80 = ''80''"
  by (simp add: number_toString_def digits_of_small digits_of_large digit_char_def)

lemma number_toString_8080: "number_toString toStr 8080 = ''8080''"
  by (simp add: number_toString_def digits_of_small digits_of_large digit_char_def)

lemma number_toString_9090: "number_toString toStr 9090 = ''9090''"
  by (simp add: number_toString_def digits_of_small digits_of_large digit_char_def)




section \<open>Properties of GET /info\<close>

lemma basicInfo_keys: "map fst (basicInfo c m os up) = basic_keys"
  by (simp add: basicInfo_def basic_keys_def Let_def)

lemma detailedInfo_keys: "map fst (detailedInfo sys l services dockerInfo) = detailed_keys"
  by (simp add: detailedInfo_def detailed_keys_def)

lemma keys_disjoint: "set basic_keys \<inter> set detailed_keys = {}"
  by (simp add: basic_keys_def detailed_keys_def)

lemma info_handler_Inr:
  "parse_detailed q = Inr detailed \<Longrightarrow> info_handler q prov = Inr resp \<Longrightarrow>
   \<exists>props. resp = JObj props \<and>
     map fst props = (if detailed then basic_keys @ detailed_keys else basic_keys)"
  by (auto simp: info_handler_def basicInfo_keys detailedInfo_keys split: sum.splits if_splits)

lemma info_handler_total:
  "parse_detailed q = Inr detailed \<Longrightarrow>
   \<not> isl (si_cpu prov) \<Longrightarrow> \<not> isl (si_mem prov) \<Longrightarrow> \<not> isl (si_osInfo prov) \<Longrightarrow> \<not> isl (si_system prov) \<Longrightarrow>
   (detailed \<Longrightarrow> \<not> isl (si_currentLoad prov) \<and> \<not> isl (si_services prov) \<and> \<not> isl (si_dockerInfo prov)) \<Longrightarrow>
   \<exists>resp. info_handler q prov = Inr resp"
  by (auto simp: info_handler_def split: sum.splits)

lemma info_handler_basic_cheap:
  "parse_detailed q = Inr False \<Longrightarrow>
   info_handler q (prov\<lparr>si_currentLoad := x, si_services := y, si_dockerInfo := z\<rparr>) = info_handler q prov"
  by (simp add: info_handler_def split: sum.splits)

text \<open>
  Claim C4: when the parsed \<^verbatim>\<open>detailed\<close> flag is false, an answer of \<^verbatim>\<open>GET /info\<close> is an
  object with exactly the basic keys (host name, platform, distribution, release,
  architecture, uptime, CPU and memory) and none of the keys \<^verbatim>\<open>system\<close>, \<^verbatim>\<open>load\<close>,
  \<^verbatim>\<open>services\<close> and \<^verbatim>\<open>docker\<close>; when the flag is true, it has the basic keys followed by
  these four. The handler answers whenever the provider calls it makes succeed: the
  four basic calls, and in detailed mode also the three detailed ones. The flag is true
  exactly for the query value \<^verbatim>\<open>'true'\<close>.
\<close>

theorem info_detailed_keys:
  "(parse_detailed q = Inr detailed \<and> info_handler q prov = Inr resp \<longrightarrow>
      (\<exists>props. resp = JObj props) \<and>
      object_keys resp = (if detailed then basic_keys @ detailed_keys else basic_keys) \<and>
      (\<not> detailed \<longrightarrow> set (object_keys resp) \<inter> set detailed_keys = {}) \<and>
      (detailed \<longrightarrow> set detailed_keys \<subseteq> set (object_keys resp)) \<and>
      set basic_keys \<subseteq> set (object_keys resp)) \<and>
   (parse_detailed q = Inr detailed \<and>
    \<not> isl (si_cpu prov) \<and> \<not> isl (si_mem prov) \<and> \<not> isl (si_osInfo prov) \<and> \<not> isl (si_system prov) \<and>
    (detailed \<longrightarrow> \<not> isl (si_currentLoad prov) \<and> \<not> isl (si_services prov) \<and> \<not> isl (si_dockerInfo prov)) \<longrightarrow>
      (\<exists>resp. info_handler q prov = Inr resp)) \<and>
   (parse_detailed q = Inr True \<longleftrightarrow> q = Some (QString ''true'')) \<and>
   basic_keys = [''hostname'', ''platform'', ''distro'', ''release'', ''arch'', ''uptime'', ''cpu'', ''memory''] \<and>
   detailed_keys = [''system'', ''load'', ''services'', ''docker'']"
proof -
  have keys: "(\<exists>props. resp = JObj props) \<and>
      object_keys resp = (if detailed then basic_keys @ detailed_keys else basic_keys) \<and>
      (\<not> detailed \<longrightarrow> set (object_keys resp) \<inter> set detailed_keys = {}) \<and>
      (detailed \<longrightarrow> set detailed_keys \<subseteq> set (object_keys resp)) \<and>
      set basic_keys \<subseteq> set (object_keys resp)"
    if "parse_detailed q = Inr detailed" "info_handler q prov = Inr resp"
  proof -
    from info_handler_Inr [OF that] obtain props where
      "resp = JObj props" "map fst props = (if detailed then basic_keys @ detailed_keys else basic_keys)"
      by blast
    with keys_disjoint show ?thesis
      by auto
  qed
  have total: "\<exists>resp. info_handler q prov = Inr resp"
    if "parse_detailed q = Inr detailed" "\<not> isl (si_cpu prov)" "\<not> isl (si_mem prov)"
      "\<not> isl (si_osInfo prov)" "\<not> isl (si_system prov)"
      "detailed \<longrightarrow> \<not> isl (si_currentLoad prov) \<and> \<not> isl (si_services prov) \<and> \<not> isl (si_dockerInfo prov)"
    using that info_handler_total [of q detailed prov] by blast
  have flag: "parse_detailed q = Inr True \<longleftrightarrow> q = Some (QString ''true'')"
    by (auto simp: parse_detailed_def split: option.splits qvalue.splits)
  from keys total flag show ?thesis
    unfolding basic_keys_def [symmetric] detailed_keys_def [symmetric]
    by blast
qed

theorem info_detailed_keys_witness:
  "(\<exists>resp. info_handler (Some (QString ''true'')) example_providers = Inr resp \<and>
      object_keys resp = basic_keys @ detailed_keys) \<and>
   (\<exists>resp. info_handler None example_providers = Inr resp \<and> object_keys resp = basic_keys)"
proof -
  have flags: "parse_detailed (Some (QString ''true'')) = Inr True" "parse_detailed None = Inr False"
    by (simp_all add: parse_detailed_def)
  have calls: "\<not> isl (si_cpu example_providers)" "\<not> isl (si_mem example_providers)"
    "\<not> isl (si_osInfo example_providers)" "\<not> isl (si_system example_providers)"
    "\<not> isl (si_currentLoad example_providers)" "\<not> isl (si_services example_providers)"
    "\<not> isl (si_dockerInfo example_providers)"
    by (simp_all add: example_providers_def)
  from info_detailed_keys [of "Some (QString ''true'')" True example_providers JNull] flags calls
  obtain full where full: "info_handler (Some (QString ''true'')) example_providers = Inr full"
    by blast
  from info_detailed_keys [of "Some (QString ''true'')" True example_providers full] flags full
  have "object_keys full = (if True then basic_keys @ detailed_keys else basic_keys)"
    by blast
  then have full_keys: "object_keys full = basic_keys @ detailed_keys"
    by simp
  from info_detailed_keys [of None False example_providers JNull] flags calls
  obtain basic where basic: "info_handler None example_providers = Inr basic"
    by blast
  from info_detailed_keys [of None False example_providers basic] flags basic
  have "object_keys basic = (if False then basic_keys @ detailed_keys else basic_keys)"
    by blast
  then have "object_keys basic = basic_keys"
    by simp
  with full full_keys basic show ?thesis
    by blast
qed

section \<open>Properties of the performance test\<close>

lemma space_not_speed_char: "\<not> is_speed_char (CHR '' '')"
  by (simp add: is_speed_char_def)

text \<open>A match at the start of a string is a match of the expression, with its group.\<close>

lemma match_here_Some:
  assumes "match_here s = Some cap"
  shows "cap \<noteq> [] \<and> list_all is_speed_char cap \<and> (\<exists>post. s = cap @ speed_unit @ post)"
proof -
  let ?rest = "dropWhile is_speed_char s"
  from assms have cap: "cap = takeWhile is_speed_char s" "cap \<noteq> []"
    and unit: "take (length speed_unit) ?rest = speed_unit"
    by (auto simp: match_here_def Let_def split: if_splits)
  from cap have "list_all is_speed_char cap"
    by (auto simp: list_all_iff dest: set_takeWhileD)
  moreover have "s = cap @ ?rest"
    by (simp add: cap)
  moreover have "?rest = speed_unit @ drop (length speed_unit) ?rest"
    using unit append_take_drop_id [of "length speed_unit" ?rest] by simp
  ultimately show ?thesis
    using cap by metis
qed

text \<open>A string that starts with a group and the unit is matched at its start.\<close>

lemma match_here_complete:
  assumes "cap \<noteq> []" "list_all is_speed_char cap"
  shows "match_here (cap @ speed_unit @ post) = Some cap"
proof -
  from assms have all: "\<And>x. x \<in> set cap \<Longrightarrow> is_speed_char x"
    by (simp add: list_all_iff)
  have "takeWhile is_speed_char (cap @ speed_unit @ post) = cap"
    using all by (simp add: takeWhile_append2 speed_unit_def space_not_speed_char)
  moreover have "dropWhile is_speed_char (cap @ speed_unit @ post) = speed_unit @ post"
    using all by (simp add: dropWhile_append2 speed_unit_def space_not_speed_char)
  ultimately show ?thesis
    using assms by (simp add: match_here_def)
qed

lemma regex_match_Some:
  "regex_match s = Some cap \<Longrightarrow>
   cap \<noteq> [] \<and> list_all is_speed_char cap \<and> (\<exists>pre post. s = pre @ cap @ speed_unit @ post)"
proof (induction s)
  case Nil
  then show ?case by simp
next
  case (Cons c cs)
  show ?case
  proof (cases "match_here (c # cs)")
    case None
    with Cons.prems have "regex_match cs = Some cap"
      by simp
    with Cons.IH obtain pre post where "cap \<noteq> []" "list_all is_speed_char cap"
      "cs = pre @ cap @ speed_unit @ post"
      by blast
    then have "c # cs = (c # pre) @ cap @ speed_unit @ post"
      by simp
    with \<open>cap \<noteq> []\<close> \<open>list_all is_speed_char cap\<close> show ?thesis
      by blast
  next
    case (Some found)
    with Cons.prems have "found = cap"
      by simp
    with Some match_here_Some [of "c # cs" cap] show ?thesis
      by (metis append_Nil)
  qed
qed

lemma regex_match_complete:
  "cap \<noteq> [] \<Longrightarrow> list_all is_speed_char cap \<Longrightarrow>
   regex_match (pre @ cap @ speed_unit @ post) \<noteq> None"
proof (induction pre)
  case Nil
  from match_here_complete [OF Nil] have here: "match_here (cap @ speed_unit @ post) = Some cap" .
  from Nil obtain c cs where "cap = c # cs"
    by (cases cap) auto
  with here show ?case
    by simp
next
  case (Cons p pre)
  then show ?case
    by (cases "match_here (p # pre @ cap @ speed_unit @ post)") simp_all
qed

text \<open>
  The group comes from the leftmost match: no match of the expression starts before
  it, and a match that starts where it starts has the same group.
\<close>

lemma regex_match_leftmost:
  "regex_match s = Some cap \<Longrightarrow>
   \<exists>pre post. s = pre @ cap @ speed_unit @ post \<and>
     (\<forall>pre' cap' post'. s = pre' @ cap' @ speed_unit @ post' \<and> cap' \<noteq> [] \<and> list_all is_speed_char cap' \<longrightarrow>
        length pre \<le> length pre' \<and> (length pre' = length pre \<longrightarrow> cap' = cap))"
proof (induction s)
  case Nil
  then show ?case by simp
next
  case (Cons c cs)
  show ?case
  proof (cases "match_here (c # cs)")
    case (Some found)
    with Cons.prems have here: "match_here (c # cs) = Some cap"
      by simp
    from match_here_Some [OF here] obtain post where post: "c # cs = cap @ speed_unit @ post"
      by blast
    have "cap' = cap"
      if "c # cs = pre' @ cap' @ speed_unit @ post'" "cap' \<noteq> []" "list_all is_speed_char cap'"
        "length pre' = 0" for pre' cap' post'
    proof -
      from that have "c # cs = cap' @ speed_unit @ post'"
        by simp
      with match_here_complete [OF that(2,3), of post'] here show ?thesis
        by simp
    qed
    then have "\<forall>pre' cap' post'. c # cs = pre' @ cap' @ speed_unit @ post' \<and> cap' \<noteq> [] \<and>
        list_all is_speed_char cap' \<longrightarrow>
        length ([]::string) \<le> length pre' \<and> (length pre' = length ([]::string) \<longrightarrow> cap' = cap)"
      by simp
    with post show ?thesis
      by (metis append_Nil)
  next
    case None
    with Cons.prems have "regex_match cs = Some cap"
      by simp
    with Cons.IH obtain pre post where split: "cs = pre @ cap @ speed_unit @ post"
      and least: "\<forall>pre' cap' post'. cs = pre' @ cap' @ speed_unit @ post' \<and> cap' \<noteq> [] \<and>
        list_all is_speed_char cap' \<longrightarrow>
        length pre \<le> length pre' \<and> (length pre' = length pre \<longrightarrow> cap' = cap)"
      by blast
    have "length (c # pre) \<le> length pre' \<and> (length pre' = length (c # pre) \<longrightarrow> cap' = cap)"
      if m: "c # cs = pre' @ cap' @ speed_unit @ post'" "cap' \<noteq> []" "list_all is_speed_char cap'"
      for pre' cap' post'
    proof (cases pre')
      case Nil
      with m have "c # cs = cap' @ speed_unit @ post'"
        by simp
      with match_here_complete [OF m(2,3), of post'] None show ?thesis
        by simp
    next
      case (Cons p pre'')
      with m have "cs = pre'' @ cap' @ speed_unit @ post'"
        by simp
      with least m have "length pre \<le> length pre'' \<and> (length pre'' = length pre \<longrightarrow> cap' = cap)"
        by blast
      with Cons show ?thesis
        by simp
    qed
    moreover from split have "c # cs = (c # pre) @ cap @ speed_unit @ post"
      by simp
    ultimately show ?thesis
      by blast
  qed
qed

text \<open>The matcher finds nothing exactly when the expression has no match in the string.\<close>

lemma regex_match_None_iff: "regex_match s = None \<longleftrightarrow> \<not> has_speed_match s"
proof
  assume "regex_match s = None"
  with regex_match_complete show "\<not> has_speed_match s"
    unfolding has_speed_match_def by blast
next
  assume none: "\<not> has_speed_match s"
  show "regex_match s = None"
  proof (rule ccontr)
    assume "regex_match s \<noteq> None"
    then obtain cap where "regex_match s = Some cap"
      by auto
    from regex_match_Some [OF this] have "has_speed_match s"
      unfolding has_speed_match_def by blast
    with none show False ..
  qed
qed

lemma parseFloat_zero: "parseFloat ''0'' = Num 0"
  by (simp add: parseFloat_def is_digit_def digits_value_def)

lemma parse_speed_no_match: "regex_match stdout = None \<Longrightarrow> parse_speed stdout = Num 0"
  by (simp add: parse_speed_def parseFloat_zero)

lemma parse_speed_match:
  "regex_match stdout = Some cap \<Longrightarrow> parse_speed stdout = js_mul (parseFloat cap) (Num 1024)"
  using regex_match_Some [of stdout cap] by (simp add: parse_speed_def)

lemma performance_handler_Inr:
  assumes "load_first meas = Inr l1" "load_second meas = Inr l2"
    and "exec dd_memory_read = Inr m0" "exec dd_memory_write = Inr m1"
    and "exec dd_disk_write = Inr d0" "exec dd_disk_read = Inr d1"
    and "exec fio_command = Inr d2" "exec cleanup_command = Inr cl" "fio_iops d2 = Inr n"
  shows "\<exists>result. performance_handler exec meas fio_iops = Inr result \<and>
           memory_result.readSpeed (memory result) = parse_speed m0 \<and>
           memory_result.writeSpeed (memory result) = parse_speed m1"
  using assms by (simp add: performance_handler_def performance_test_def)



end
